theory Spec2Isabelle
  imports
    Main
    "HOL-Library.Word"
    "HOL-Library.Multiset"
    "HOL-Library.Char_ord"
    "HOL-Library.List_Lexorder"
begin

unbundle bit_operations_syntax

section \<open>Capability bitmask (pkg/util/grants/grants.go)\<close>

text \<open>
  \<^verbatim>\<open>type RoleGrant int\<close>. Go's \<open>int\<close> is 64 bits wide on the 64-bit targets kvdi is
  built for; the mask is a 64-bit word, \<open>&\<close> is \<open>AND\<close>, \<open>|\<close> is \<open>OR\<close> and \<open><<\<close> is
  \<open>push_bit\<close>.
\<close>

type_synonym RoleGrant = "64 word"

text \<open>
  The first \<^verbatim>\<open>const\<close> block: \<^verbatim>\<open>ReadUsers RoleGrant = 1 << iota\<close>, the expression being
  repeated for every following name with \<open>iota\<close> counting the lines from 0.
\<close>

definition ReadUsers :: RoleGrant where
  "ReadUsers = push_bit 0 1"

definition WriteUsers :: RoleGrant where
  "WriteUsers = push_bit 1 1"

definition ReadRoles :: RoleGrant where
  "ReadRoles = push_bit 2 1"

definition WriteRoles :: RoleGrant where
  "WriteRoles = push_bit 3 1"

definition ReadTemplates :: RoleGrant where
  "ReadTemplates = push_bit 4 1"

definition WriteTemplates :: RoleGrant where
  "WriteTemplates = push_bit 5 1"

definition LaunchTemplates :: RoleGrant where
  "LaunchTemplates = push_bit 6 1"

definition ReadDesktopSessions :: RoleGrant where
  "ReadDesktopSessions = push_bit 7 1"

definition All :: RoleGrant where
  "All = ReadUsers OR WriteUsers OR
         ReadRoles OR WriteRoles OR
         ReadTemplates OR WriteTemplates OR
         LaunchTemplates OR ReadDesktopSessions"

definition grantNames :: "string list" where
  "grantNames =
    [''ReadUsers'',
     ''WriteUsers'',
     ''ReadRoles'',
     ''WriteRoles'',
     ''ReadTemplates'',
     ''WriteTemplates'',
     ''LaunchTemplates'',
     ''ReadDesktopSessions'']"

text \<open>\<^verbatim>\<open>func (r RoleGrant) Has(grant RoleGrant) bool { return r&grant != 0 }\<close>\<close>

definition Has :: "RoleGrant \<Rightarrow> RoleGrant \<Rightarrow> bool" where
  "Has r grant = (r AND grant \<noteq> 0)"

text \<open>
  The loop of \<open>Names\<close>: \<^verbatim>\<open>for i := 0; i < len(grantNames); i++\<close>, appending
  \<^verbatim>\<open>grantNames[i]\<close> to \<open>result\<close> when \<^verbatim>\<open>r&(1<<uint(i)) != 0\<close>. The index is below
  \<open>len(grantNames)\<close> whenever it is read, so the read cannot go out of range.
\<close>

function Names_loop :: "RoleGrant \<Rightarrow> nat \<Rightarrow> string list \<Rightarrow> string list" where
  "Names_loop r i result =
     (if i < length grantNames
      then Names_loop r (i + 1)
             (if r AND push_bit i 1 \<noteq> 0 then result @ [grantNames ! i] else result)
      else result)"
  by pat_completeness auto
termination
  by (relation "measure (\<lambda>(r, i, result). length grantNames - i)") auto

definition Names :: "RoleGrant \<Rightarrow> string list" where
  "Names r = Names_loop r 0 []"

section \<open>Rules (package v1)\<close>

text \<open>
  Modelled from the spec: the declarations of \<open>Verb\<close>, \<open>Resource\<close>, \<open>VerbAll\<close>,
  \<open>ResourceAll\<close> and \<open>NamespaceAll\<close> are in another file of the package. The spec's
  vocabulary and the field comments of \<open>Rule\<close> give them as string types whose wildcard
  is the literal \<^verbatim>\<open>"*"\<close>.
\<close>

type_synonym Verb = string
type_synonym Resource = string

definition VerbAll :: Verb where
  "VerbAll = ''*''"

definition ResourceAll :: Resource where
  "ResourceAll = ''*''"

definition NamespaceAll :: string where
  "NamespaceAll = ''*''"

text \<open>
  The struct \<open>Rule\<close>, by value: each slice is the list of its elements (a nil slice and
  an empty one both have length 0 and are both the empty list).
\<close>

record Rule =
  Verbs :: "Verb list"
  Resources :: "Resource list"
  ResourcePatterns :: "string list"
  Namespaces :: "string list"

definition IsEmpty :: "Rule \<Rightarrow> bool" where
  "IsEmpty r \<longleftrightarrow>
     length (Verbs r) = 0 \<and>
     length (Resources r) = 0 \<and>
     length (ResourcePatterns r) = 0 \<and>
     length (Namespaces r) = 0"

text \<open>A failed index expression panics; the panic is a value of the model.\<close>

datatype error = IndexOutOfRange

text \<open>
  One \<^verbatim>\<open>for i, s := range ss\<close> loop of \<open>strSliceEqual\<close>, from index \<open>i\<close> on:
  \<^verbatim>\<open>if other[i] == s { continue }; return false\<close>, and \<^verbatim>\<open>return true\<close> after the loop.
\<close>

fun range_loop :: "string list \<Rightarrow> nat \<Rightarrow> string list \<Rightarrow> error + bool" where
  "range_loop other i [] = Inr True"
| "range_loop other i (s # rest) =
     (if i < length other
      then (if other ! i = s then range_loop other (i + 1) rest else Inr False)
      else Inl IndexOutOfRange)"

definition strSliceEqual :: "string list \<Rightarrow> string list \<Rightarrow> error + bool" where
  "strSliceEqual ss xx =
     (let lS = length ss; lX = length xx in
      if lS = 0 \<and> lX = 0 then Inr True
      else if lS \<noteq> lX then Inr False
      else if lS > 0 then range_loop xx 0 ss
      else range_loop ss 0 xx)"

text \<open>
  The path condition of the second loop of \<open>strSliceEqual\<close> (the one over \<open>xx\<close>): the
  guards of the three \<open>if\<close> statements before it are all false.
\<close>

definition second_loop_reached :: "string list \<Rightarrow> string list \<Rightarrow> bool" where
  "second_loop_reached ss xx =
     (let lS = length ss; lX = length xx in
      \<not> (lS = 0 \<and> lX = 0) \<and> \<not> (lS \<noteq> lX) \<and> \<not> (lS > 0))"

text \<open>Go's short-circuit \<^verbatim>\<open>&&\<close> over operands that may panic.\<close>

definition and_also :: "error + bool \<Rightarrow> error + bool \<Rightarrow> error + bool" where
  "and_also a b = (case a of Inl e \<Rightarrow> Inl e | Inr x \<Rightarrow> if x then b else Inr False)"

text \<open>
  Modelled from the spec: \<open>DeepCopy\<close> (generated code), \<open>resourcesToStrings\<close> and
  \<open>verbsToStrings\<close> are in other files of the package. The spec has them take independent
  copies and convert the typed slices to their string representations; on values both
  keep every element in its place.
\<close>

definition DeepCopy :: "Rule \<Rightarrow> Rule" where
  "DeepCopy r =
     \<lparr>Verbs = Verbs r, Resources = Resources r,
      ResourcePatterns = ResourcePatterns r, Namespaces = Namespaces r\<rparr>"

definition resourcesToStrings :: "Resource list \<Rightarrow> string list" where
  "resourcesToStrings rr = map (\<lambda>r. r) rr"

definition verbsToStrings :: "Verb list \<Rightarrow> string list" where
  "verbsToStrings vv = map (\<lambda>v. v) vv"

text \<open>
  \<^verbatim>\<open>sort.Strings\<close> puts a slice in increasing order of Go's string comparison, which is
  the lexicographic order of the bytes: the order of \<open>char list\<close> here.
\<close>

definition sort_Strings :: "string list \<Rightarrow> string list" where
  "sort_Strings xs = sort xs"

definition DeepEqual :: "Rule \<Rightarrow> Rule \<Rightarrow> error + bool" where
  "DeepEqual r rule =
     (let this = DeepCopy r;
          that = DeepCopy rule;
          thisResourceStrings = resourcesToStrings (Resources this);
          thisVerbStrings = verbsToStrings (Verbs this);
          thatResourceStrings = resourcesToStrings (Resources that);
          thatVerbStrings = verbsToStrings (Verbs that);
          thisResourceStrings = sort_Strings thisResourceStrings;
          thisVerbStrings = sort_Strings thisVerbStrings;
          thatResourceStrings = sort_Strings thatResourceStrings;
          thatVerbStrings = sort_Strings thatVerbStrings;
          this = this\<lparr>ResourcePatterns := sort_Strings (ResourcePatterns this)\<rparr>;
          this = this\<lparr>Namespaces := sort_Strings (Namespaces this)\<rparr>;
          that = that\<lparr>ResourcePatterns := sort_Strings (ResourcePatterns that)\<rparr>;
          that = that\<lparr>Namespaces := sort_Strings (Namespaces that)\<rparr>
      in and_also (strSliceEqual thisResourceStrings thatResourceStrings)
          (and_also (strSliceEqual thisVerbStrings thatVerbStrings)
            (and_also (strSliceEqual (ResourcePatterns this) (ResourcePatterns that))
              (strSliceEqual (Namespaces this) (Namespaces that)))))"

text \<open>The loop of \<open>HasVerb\<close> over \<open>r.Verbs\<close>.\<close>

fun HasVerb_loop :: "Verb list \<Rightarrow> Verb \<Rightarrow> bool" where
  "HasVerb_loop [] verb = False"
| "HasVerb_loop (item # rest) verb =
     (if item = VerbAll then True
      else if item = verb then True
      else HasVerb_loop rest verb)"

definition HasVerb :: "Rule \<Rightarrow> Verb \<Rightarrow> bool" where
  "HasVerb r verb = HasVerb_loop (Verbs r) verb"

fun HasResourceType_loop :: "Resource list \<Rightarrow> Resource \<Rightarrow> bool" where
  "HasResourceType_loop [] resource = False"
| "HasResourceType_loop (item # rest) resource =
     (if item = ResourceAll then True
      else if item = resource then True
      else HasResourceType_loop rest resource)"

definition HasResourceType :: "Rule \<Rightarrow> Resource \<Rightarrow> bool" where
  "HasResourceType r resource = HasResourceType_loop (Resources r) resource"

text \<open>
  \<open>MatchesResourceName\<close> calls Go's \<open>regexp\<close> package, which is not part of kvdi. The
  package is a parameter of the model: \<open>Compile\<close> gives \<open>None\<close> where
  \<^verbatim>\<open>regexp.Compile\<close> returns an error and the compiled expression otherwise, and
  \<open>MatchString re name\<close> is \<^verbatim>\<open>re.MatchString(name)\<close>.
\<close>

fun MatchesResourceName_loop ::
  "(string \<Rightarrow> 're option) \<Rightarrow> ('re \<Rightarrow> string \<Rightarrow> bool) \<Rightarrow> string list \<Rightarrow> string \<Rightarrow> bool"
where
  "MatchesResourceName_loop Compile MatchString [] name = False"
| "MatchesResourceName_loop Compile MatchString (pattern # rest) name =
     (case Compile pattern of
        None \<Rightarrow> MatchesResourceName_loop Compile MatchString rest name
      | Some re \<Rightarrow>
          if MatchString re name then True
          else MatchesResourceName_loop Compile MatchString rest name)"

definition MatchesResourceName ::
  "(string \<Rightarrow> 're option) \<Rightarrow> ('re \<Rightarrow> string \<Rightarrow> bool) \<Rightarrow> Rule \<Rightarrow> string \<Rightarrow> bool"
where
  "MatchesResourceName Compile MatchString r name =
     MatchesResourceName_loop Compile MatchString (ResourcePatterns r) name"

fun HasNamespace_loop :: "string list \<Rightarrow> string \<Rightarrow> bool" where
  "HasNamespace_loop [] ns = False"
| "HasNamespace_loop (item # rest) ns =
     (if item = NamespaceAll then True
      else if item = ns then True
      else HasNamespace_loop rest ns)"

definition HasNamespace :: "Rule \<Rightarrow> string \<Rightarrow> bool" where
  "HasNamespace r ns = HasNamespace_loop (Namespaces r) ns"

section \<open>Rules with their backing arrays\<close>

text \<open>
  A Go slice is a view of a backing array, and \<^verbatim>\<open>sort.Strings\<close> writes through it. To
  state what \<open>DeepEqual\<close> leaves untouched, the store is the list of backing arrays (an
  address is an index, allocation appends) and a slice header is the address of its
  array, the offset of its first element and its length; \<open>None\<close> is the nil slice.
  Two headers may share an array and overlap. The capacity is left out: nothing here
  appends to a slice.
\<close>

type_synonym store = "string list list"

record slice =
  base :: nat
  offset :: nat
  count :: nat

text \<open>The elements seen through a slice header: \<^verbatim>\<open>s[0], ..., s[len(s)-1]\<close>.\<close>

definition elems :: "store \<Rightarrow> slice option \<Rightarrow> string list" where
  "elems st s =
     (case s of
        None \<Rightarrow> []
      | Some sl \<Rightarrow> take (count sl) (drop (offset sl) (st ! base sl)))"

text \<open>
  The headers Go can build: the array exists and the view lies inside it.
\<close>

definition valid_slice :: "store \<Rightarrow> slice option \<Rightarrow> bool" where
  "valid_slice st s =
     (case s of
        None \<Rightarrow> True
      | Some sl \<Rightarrow> base sl < length st \<and> offset sl + count sl \<le> length (st ! base sl))"

text \<open>\<^verbatim>\<open>out := make([]T, len(in)); copy(out, in)\<close>: a new array holding the elements.\<close>

definition make_copy :: "store \<Rightarrow> string list \<Rightarrow> store \<times> slice option" where
  "make_copy st xs = (st @ [xs], Some \<lparr>base = length st, offset = 0, count = length xs\<rparr>)"

text \<open>The struct \<open>Rule\<close> as it lies in memory: four slice headers.\<close>

record Rule_h =
  Verbs_h :: "slice option"
  Resources_h :: "slice option"
  ResourcePatterns_h :: "slice option"
  Namespaces_h :: "slice option"

text \<open>
  Modelled from the spec: \<open>DeepCopy\<close> is generated code in another file of the package.
  The spec has it take independent copies; the generated \<open>DeepCopyInto\<close> does so field
  by field, \<^verbatim>\<open>if in.F != nil { out.F = make([]T, len(in.F)); copy(out.F, in.F) }\<close>, in the
  order of the struct's fields, a nil field staying nil.
\<close>

definition copy_field :: "store \<Rightarrow> slice option \<Rightarrow> store \<times> slice option" where
  "copy_field st s = (case s of None \<Rightarrow> (st, None) | Some sl \<Rightarrow> make_copy st (elems st s))"

definition DeepCopy_h :: "store \<Rightarrow> Rule_h \<Rightarrow> store \<times> Rule_h" where
  "DeepCopy_h st r =
     (let (st, verbs) = copy_field st (Verbs_h r);
          (st, resources) = copy_field st (Resources_h r);
          (st, patterns) = copy_field st (ResourcePatterns_h r);
          (st, namespaces) = copy_field st (Namespaces_h r)
      in (st, \<lparr>Verbs_h = verbs, Resources_h = resources,
               ResourcePatterns_h = patterns, Namespaces_h = namespaces\<rparr>))"

text \<open>
  Modelled from the spec: \<open>resourcesToStrings\<close> and \<open>verbsToStrings\<close> are in another
  file of the package. The spec has them convert the typed slices to their string
  representations: a new \<^verbatim>\<open>[]string\<close> with the converted elements.
\<close>

definition resourcesToStrings_h :: "store \<Rightarrow> slice option \<Rightarrow> store \<times> slice option" where
  "resourcesToStrings_h st rr = make_copy st (resourcesToStrings (elems st rr))"

definition verbsToStrings_h :: "store \<Rightarrow> slice option \<Rightarrow> store \<times> slice option" where
  "verbsToStrings_h st vv = make_copy st (verbsToStrings (elems st vv))"

text \<open>
  \<^verbatim>\<open>sort.Strings(s)\<close> in place: the elements seen through \<open>s\<close> are put in increasing
  order inside the backing array, the rest of the array stays; on a nil slice nothing
  happens.
\<close>

definition sort_Strings_h :: "store \<Rightarrow> slice option \<Rightarrow> store" where
  "sort_Strings_h st s =
     (case s of
        None \<Rightarrow> st
      | Some sl \<Rightarrow>
          (let a = st ! base sl in
           st[base sl := take (offset sl) a @ sort_Strings (elems st s)
                          @ drop (offset sl + count sl) a]))"

text \<open>
  \<open>DeepEqual\<close> statement by statement, threading the store. The receiver \<open>r\<close> (a
  non-nil pointer) and the argument \<open>rule\<close> are the callers' headers; no statement
  assigns to a field of either.
\<close>

definition DeepEqual_h :: "store \<Rightarrow> Rule_h \<Rightarrow> Rule_h \<Rightarrow> (error + bool) \<times> store" where
  "DeepEqual_h st r rule =
     (let (st, this) = DeepCopy_h st r;
          (st, that) = DeepCopy_h st rule;
          (st, thisResourceStrings) = resourcesToStrings_h st (Resources_h this);
          (st, thisVerbStrings) = verbsToStrings_h st (Verbs_h this);
          (st, thatResourceStrings) = resourcesToStrings_h st (Resources_h that);
          (st, thatVerbStrings) = verbsToStrings_h st (Verbs_h that);
          st = sort_Strings_h st thisResourceStrings;
          st = sort_Strings_h st thisVerbStrings;
          st = sort_Strings_h st thatResourceStrings;
          st = sort_Strings_h st thatVerbStrings;
          st = sort_Strings_h st (ResourcePatterns_h this);
          st = sort_Strings_h st (Namespaces_h this);
          st = sort_Strings_h st (ResourcePatterns_h that);
          st = sort_Strings_h st (Namespaces_h that)
      in (and_also (strSliceEqual (elems st thisResourceStrings) (elems st thatResourceStrings))
           (and_also (strSliceEqual (elems st thisVerbStrings) (elems st thatVerbStrings))
             (and_also (strSliceEqual (elems st (ResourcePatterns_h this))
                                      (elems st (ResourcePatterns_h that)))
               (strSliceEqual (elems st (Namespaces_h this)) (elems st (Namespaces_h that))))),
          st))"

text \<open>The value of a rule in a store, and the rules whose four headers are valid.\<close>

definition Rule_of :: "store \<Rightarrow> Rule_h \<Rightarrow> Rule" where
  "Rule_of st r =
     \<lparr>Verbs = elems st (Verbs_h r), Resources = elems st (Resources_h r),
      ResourcePatterns = elems st (ResourcePatterns_h r), Namespaces = elems st (Namespaces_h r)\<rparr>"

definition valid_Rule :: "store \<Rightarrow> Rule_h \<Rightarrow> bool" where
  "valid_Rule st r \<longleftrightarrow>
     valid_slice st (Verbs_h r) \<and> valid_slice st (Resources_h r) \<and>
     valid_slice st (ResourcePatterns_h r) \<and> valid_slice st (Namespaces_h r)"

text \<open>
  Bookkeeping for the proofs: a header that points at or above address \<open>n\<close>, two headers
  on different arrays, a header whose array is in an address range, a valid header with
  known elements, and a list of headers on pairwise different arrays.
\<close>

definition fresh :: "nat \<Rightarrow> slice option \<Rightarrow> bool" where
  "fresh n s = (case s of None \<Rightarrow> True | Some sl \<Rightarrow> n \<le> base sl)"

definition apart :: "slice option \<Rightarrow> slice option \<Rightarrow> bool" where
  "apart s t = (case s of None \<Rightarrow> True
                | Some a \<Rightarrow> (case t of None \<Rightarrow> True | Some b \<Rightarrow> base a \<noteq> base b))"

definition within :: "nat \<Rightarrow> nat \<Rightarrow> slice option \<Rightarrow> bool" where
  "within lo hi s = (case s of None \<Rightarrow> True | Some sl \<Rightarrow> lo \<le> base sl \<and> base sl < hi)"

definition holds :: "store \<Rightarrow> slice option \<Rightarrow> string list \<Rightarrow> bool" where
  "holds st s xs \<longleftrightarrow> valid_slice st s \<and> elems st s = xs"

fun pairwise_apart :: "slice option list \<Rightarrow> bool" where
  "pairwise_apart [] = True"
| "pairwise_apart (x # xs) = (list_all (apart x) xs \<and> pairwise_apart xs)"

section \<open>A regular-expression instance for evaluation\<close>

text \<open>
  To run \<open>MatchesResourceName\<close> on concrete patterns the \<open>regexp\<close> parameter needs a
  value. This one covers the fragment of RE2 syntax made of literal text with an
  optional leading \<^verbatim>\<open>^\<close> and an optional trailing \<^verbatim>\<open>$\<close>, where it agrees with Go:
  an unanchored pattern matches anywhere in the name. Every pattern in which another
  metacharacter is left is rejected by this instance; for \<^verbatim>\<open>(unclosed\<close> so does
  \<^verbatim>\<open>regexp.Compile\<close> (missing closing parenthesis).
\<close>

definition meta_characters :: string where
  "meta_characters = CHR 0x5C # ''.+*?()|[]{}^$''"

definition lit_Compile :: "string \<Rightarrow> (bool \<times> string \<times> bool) option" where
  "lit_Compile pattern =
     (let bol = (pattern \<noteq> [] \<and> hd pattern = CHR ''^'');
          p1 = (if bol then tl pattern else pattern);
          eol = (p1 \<noteq> [] \<and> last p1 = CHR ''$'');
          body = (if eol then butlast p1 else p1)
      in if list_ex (\<lambda>c. List.member meta_characters c) body then None
         else Some (bol, body, eol))"

definition lit_MatchString :: "bool \<times> string \<times> bool \<Rightarrow> string \<Rightarrow> bool" where
  "lit_MatchString re name =
     (case re of (bol, body, eol) \<Rightarrow>
        list_ex (\<lambda>i. take (length body) (drop i name) = body \<and>
                     (if bol then i = 0 else True) \<and>
                     (if eol then i + length body = length name else True))
          [0..<Suc (length name)])"

section \<open>Example rules in a store\<close>

text \<open>
  One array shared by the verbs and the patterns of a rule, whose views overlap, and a
  second rule that differs from the first only in having an empty namespace slice where
  the first has nil.
\<close>

definition example_store :: store where
  "example_store = [[''use'', ''read'', ''*''], [''users'']]"

definition example_rule :: Rule_h where
  "example_rule =
     \<lparr>Verbs_h = Some \<lparr>base = 0, offset = 0, count = 2\<rparr>,
      Resources_h = Some \<lparr>base = 1, offset = 0, count = 1\<rparr>,
      ResourcePatterns_h = Some \<lparr>base = 0, offset = 1, count = 2\<rparr>,
      Namespaces_h = None\<rparr>"

definition example_other :: Rule_h where
  "example_other =
     \<lparr>Verbs_h = Some \<lparr>base = 0, offset = 0, count = 2\<rparr>,
      Resources_h = Some \<lparr>base = 1, offset = 0, count = 1\<rparr>,
      ResourcePatterns_h = Some \<lparr>base = 0, offset = 1, count = 2\<rparr>,
      Namespaces_h = Some \<lparr>base = 1, offset = 1, count = 0\<rparr>\<rparr>"

section \<open>The grant constants\<close>

declare Names_loop.simps [simp del]

lemma grant_values:
  "ReadUsers = 1" "WriteUsers = 2" "ReadRoles = 4" "WriteRoles = 8"
  "ReadTemplates = 16" "WriteTemplates = 32" "LaunchTemplates = 64"
  "ReadDesktopSessions = 128"
  by (simp_all add: ReadUsers_def WriteUsers_def ReadRoles_def WriteRoles_def
      ReadTemplates_def WriteTemplates_def LaunchTemplates_def ReadDesktopSessions_def)

lemma All_value: "All = 255"
  by (simp add: All_def grant_values)

lemma bit_one_shifted: "bit (push_bit k 1 :: RoleGrant) n \<longleftrightarrow> n = k \<and> k < 64"
  by (auto simp add: bit_exp_iff dest: bit_imp_le_length)

lemma All_mask: "All = mask 8"
  by (simp add: All_value mask_eq_exp_minus_1)

lemma bit_All: "bit All i \<longleftrightarrow> i < 8"
  by (auto simp add: All_mask bit_mask_iff)

text \<open>
  Claim C8. Each of the eight named capabilities is a single bit, the bits being given
  out in declaration order from bit 0: \<open>ReadUsers = 1\<close>, \<open>WriteUsers = 2\<close>,
  \<open>ReadRoles = 4\<close>, \<open>WriteRoles = 8\<close>, \<open>ReadTemplates = 16\<close>, \<open>WriteTemplates = 32\<close>,
  \<open>LaunchTemplates = 64\<close>, \<open>ReadDesktopSessions = 128\<close>; and \<open>All\<close> is the union of the
  eight, 255, whose set bits are the bits 0 to 7.
\<close>

theorem grant_constants_C8:
  "ReadUsers = 1 \<and> WriteUsers = 2 \<and> ReadRoles = 4 \<and> WriteRoles = 8 \<and>
   ReadTemplates = 16 \<and> WriteTemplates = 32 \<and> LaunchTemplates = 64 \<and>
   ReadDesktopSessions = 128 \<and>
   (\<forall>n. bit ReadUsers n = (n = 0)) \<and> (\<forall>n. bit WriteUsers n = (n = 1)) \<and>
   (\<forall>n. bit ReadRoles n = (n = 2)) \<and> (\<forall>n. bit WriteRoles n = (n = 3)) \<and>
   (\<forall>n. bit ReadTemplates n = (n = 4)) \<and> (\<forall>n. bit WriteTemplates n = (n = 5)) \<and>
   (\<forall>n. bit LaunchTemplates n = (n = 6)) \<and> (\<forall>n. bit ReadDesktopSessions n = (n = 7)) \<and>
   All = ReadUsers OR WriteUsers OR ReadRoles OR WriteRoles OR
         ReadTemplates OR WriteTemplates OR LaunchTemplates OR ReadDesktopSessions \<and>
   All = 255 \<and> (\<forall>n. bit All n = (n < 8))"
proof -
  have bits:
    "\<forall>n. bit ReadUsers n = (n = 0)" "\<forall>n. bit WriteUsers n = (n = 1)"
    "\<forall>n. bit ReadRoles n = (n = 2)" "\<forall>n. bit WriteRoles n = (n = 3)"
    "\<forall>n. bit ReadTemplates n = (n = 4)" "\<forall>n. bit WriteTemplates n = (n = 5)"
    "\<forall>n. bit LaunchTemplates n = (n = 6)" "\<forall>n. bit ReadDesktopSessions n = (n = 7)"
    unfolding ReadUsers_def WriteUsers_def ReadRoles_def WriteRoles_def
      ReadTemplates_def WriteTemplates_def LaunchTemplates_def ReadDesktopSessions_def
      bit_one_shifted
    by simp_all
  have union: "\<forall>n. bit All n = (n < 8)"
    by (simp add: bit_All)
  show ?thesis
    by (intro conjI grant_values All_def All_value bits union)
qed

section \<open>Has\<close>

lemma Has_iff_common_bit: "Has r g \<longleftrightarrow> (\<exists>n. bit r n \<and> bit g n)"
proof
  assume "Has r g"
  then have "r AND g \<noteq> 0"
    by (simp add: Has_def)
  then obtain n where "bit (r AND g) n"
    by (auto simp add: bit_eq_iff)
  then show "\<exists>n. bit r n \<and> bit g n"
    by (auto simp add: bit_and_iff)
next
  assume "\<exists>n. bit r n \<and> bit g n"
  then obtain n where "bit (r AND g) n"
    by (auto simp add: bit_and_iff)
  then have "r AND g \<noteq> 0"
    by auto
  then show "Has r g"
    by (simp add: Has_def)
qed

text \<open>
  Claim C6. \<open>r.Has(g)\<close> is true exactly when \<open>r & g\<close> is not 0. So \<open>Has\<close> asks for one
  common bit, not for all bits of \<open>g\<close>: every mask with one of the bits 0 to 7 set
  satisfies \<open>Has(All)\<close>, and \<open>ReadUsers\<close> does so without containing \<open>All\<close>.
\<close>

theorem Has_C6:
  "(Has r g \<longleftrightarrow> r AND g \<noteq> 0) \<and>
   (\<forall>i<8. bit r i \<longrightarrow> Has r All) \<and>
   Has ReadUsers All \<and> ReadUsers AND All \<noteq> All"
proof -
  have "\<forall>i<8. bit r i \<longrightarrow> Has r All"
    by (auto simp add: Has_iff_common_bit bit_All)
  moreover have "Has ReadUsers All \<and> ReadUsers AND All \<noteq> All"
    by (simp add: Has_def grant_values All_value)
  ultimately show ?thesis
    by (simp add: Has_def)
qed

theorem Has_C6_witness:
  "(3::nat) < 8 \<and> bit WriteRoles 3 \<and> Has WriteRoles All \<and> WriteRoles AND All \<noteq> All"
proof -
  have b: "bit WriteRoles 3"
    by (simp add: WriteRoles_def bit_one_shifted)
  from Has_C6 [of WriteRoles All]
  have "(3::nat) < 8 \<longrightarrow> bit WriteRoles 3 \<longrightarrow> Has WriteRoles All"
    by blast
  with b have "Has WriteRoles All"
    by simp
  with b show ?thesis
    by (simp add: grant_values All_value)
qed

section \<open>Names\<close>

lemma length_grantNames: "length grantNames = 8"
  by (simp add: grantNames_def)

lemma Names_loop_eq:
  "i \<le> 8 \<Longrightarrow>
   Names_loop r i acc = acc @ map (\<lambda>k. grantNames ! k) (filter (\<lambda>k. bit r k) [i..<8])"
proof (induction r i acc rule: Names_loop.induct)
  case (1 r i result)
  show ?case
  proof (cases "i < 8")
    case True
    then have up: "[i..<8] = i # [i + 1..<8]"
      by (simp add: upt_conv_Cons)
    from True have "Names_loop r i result = Names_loop r (i + 1)
             (if r AND push_bit i 1 \<noteq> 0 then result @ [grantNames ! i] else result)"
      by (subst Names_loop.simps) (simp add: length_grantNames)
    also have "\<dots> = (if r AND push_bit i 1 \<noteq> 0 then result @ [grantNames ! i] else result)
         @ map (\<lambda>k. grantNames ! k) (filter (\<lambda>k. bit r k) [i + 1..<8])"
      using True by (intro "1.IH") (simp_all add: length_grantNames)
    finally show ?thesis
      by (simp add: up and_exp_eq_0_iff_not_bit del: upt_Suc)
  next
    case False
    with "1.prems" have "i = 8"
      by simp
    then show ?thesis
      by (subst Names_loop.simps) (simp add: length_grantNames)
  qed
qed

text \<open>
  Claim C7. \<open>Names()\<close> is the list of \<open>grantNames[k]\<close> for the positions \<open>k\<close> from 0 to 7
  whose bit is set in the mask, in increasing \<open>k\<close>. It is a function of the mask alone:
  \<open>ReadUsers | WriteUsers\<close> and \<open>WriteUsers | ReadUsers\<close> both give
  \<open>["ReadUsers", "WriteUsers"]\<close>.
\<close>

theorem Names_C7:
  "Names r = map (\<lambda>k. grantNames ! k) (filter (\<lambda>k. bit r k) [0..<8]) \<and>
   Names (ReadUsers OR WriteUsers) = [''ReadUsers'', ''WriteUsers''] \<and>
   Names (WriteUsers OR ReadUsers) = [''ReadUsers'', ''WriteUsers'']"
proof -
  have general: "Names m = map (\<lambda>k. grantNames ! k) (filter (\<lambda>k. bit m k) [0..<8])" for m
    by (simp add: Names_def Names_loop_eq)
  have "Names (ReadUsers OR WriteUsers) = [''ReadUsers'', ''WriteUsers'']"
    by (simp add: general grant_values grantNames_def upt_conv_Cons bit_numeral_word_iff)
  moreover have "WriteUsers OR ReadUsers = ReadUsers OR WriteUsers"
    by (simp add: or.commute)
  ultimately show ?thesis
    using general [of r] by simp
qed

section \<open>Membership tests of a rule\<close>

lemma HasVerb_loop_iff: "HasVerb_loop vs v \<longleftrightarrow> v \<in> set vs \<or> VerbAll \<in> set vs"
  by (induction vs) auto

lemma HasResourceType_loop_iff:
  "HasResourceType_loop rs x \<longleftrightarrow> x \<in> set rs \<or> ResourceAll \<in> set rs"
  by (induction rs) auto

lemma HasNamespace_loop_iff:
  "HasNamespace_loop nss ns \<longleftrightarrow> ns \<in> set nss \<or> NamespaceAll \<in> set nss"
  by (induction nss) auto

text \<open>
  Claim C2. \<open>HasVerb(v)\<close> is true exactly when \<open>v\<close> itself or the wildcard verb \<open>"*"\<close> is
  an element of \<open>r.Verbs\<close>; so a rule whose verbs are \<open>["*"]\<close>, or contain \<open>"*"\<close> at any
  position, has every verb. \<open>HasResourceType\<close> and \<open>HasNamespace\<close> are the same test on
  \<open>r.Resources\<close> and \<open>r.Namespaces\<close>, each with the wildcard \<open>"*"\<close>.
\<close>

theorem wildcard_or_exact_C2:
  "(HasVerb r v \<longleftrightarrow> v \<in> set (Verbs r) \<or> VerbAll \<in> set (Verbs r)) \<and>
   (HasResourceType r res \<longleftrightarrow> res \<in> set (Resources r) \<or> ResourceAll \<in> set (Resources r)) \<and>
   (HasNamespace r ns \<longleftrightarrow> ns \<in> set (Namespaces r) \<or> NamespaceAll \<in> set (Namespaces r)) \<and>
   VerbAll = ''*'' \<and> ResourceAll = ''*'' \<and> NamespaceAll = ''*'' \<and>
   HasVerb (r\<lparr>Verbs := [''*'']\<rparr>) v \<and>
   HasVerb (r\<lparr>Verbs := before @ ''*'' # after\<rparr>) v"
  by (simp add: HasVerb_def HasResourceType_def HasNamespace_def HasVerb_loop_iff
      HasResourceType_loop_iff HasNamespace_loop_iff VerbAll_def ResourceAll_def NamespaceAll_def)

text \<open>
  Claim C3. With \<open>Verbs\<close> empty \<open>HasVerb\<close> is false for every verb, with \<open>Resources\<close> empty
  \<open>HasResourceType\<close> is false for every resource, with \<open>Namespaces\<close> empty \<open>HasNamespace\<close>
  is false for every namespace, and with \<open>ResourcePatterns\<close> empty \<open>MatchesResourceName\<close>
  is false for every name, whatever the regular-expression package does. So the rule
  with all four fields empty authorizes nothing and matches no name.
\<close>

theorem empty_fields_C3:
  "(Verbs r = [] \<longrightarrow> \<not> HasVerb r v) \<and>
   (Resources r = [] \<longrightarrow> \<not> HasResourceType r res) \<and>
   (Namespaces r = [] \<longrightarrow> \<not> HasNamespace r ns) \<and>
   (ResourcePatterns r = [] \<longrightarrow> \<not> MatchesResourceName Compile MatchString r name) \<and>
   (IsEmpty r \<longrightarrow>
      \<not> HasVerb r v \<and> \<not> HasResourceType r res \<and> \<not> HasNamespace r ns \<and>
      \<not> MatchesResourceName Compile MatchString r name)"
  by (simp add: HasVerb_def HasResourceType_def HasNamespace_def MatchesResourceName_def
      IsEmpty_def)

theorem empty_fields_C3_witness:
  "IsEmpty \<lparr>Verbs = [], Resources = [], ResourcePatterns = [], Namespaces = []\<rparr> \<and>
   \<not> HasVerb \<lparr>Verbs = [], Resources = [], ResourcePatterns = [], Namespaces = []\<rparr> ''read'' \<and>
   \<not> HasResourceType
       \<lparr>Verbs = [], Resources = [], ResourcePatterns = [], Namespaces = []\<rparr> ''users'' \<and>
   \<not> HasNamespace
       \<lparr>Verbs = [], Resources = [], ResourcePatterns = [], Namespaces = []\<rparr> ''default'' \<and>
   \<not> MatchesResourceName lit_Compile lit_MatchString
       \<lparr>Verbs = [], Resources = [], ResourcePatterns = [], Namespaces = []\<rparr> []"
  using empty_fields_C3
    [where r = "\<lparr>Verbs = [], Resources = [], ResourcePatterns = [], Namespaces = []\<rparr>"
       and v = "''read''" and res = "''users''" and ns = "''default''" and name = "[]"
       and Compile = lit_Compile and MatchString = lit_MatchString]
  by (simp add: IsEmpty_def)

section \<open>strSliceEqual\<close>

lemma range_loop_eq:
  "i + length rest \<le> length other \<Longrightarrow>
   range_loop other i rest = Inr (take (length rest) (drop i other) = rest)"
proof (induction rest arbitrary: i)
  case Nil
  then show ?case by simp
next
  case (Cons s rest)
  then have i: "i < length other" by simp
  then have d: "drop i other = other ! i # drop (Suc i) other"
    by (simp add: Cons_nth_drop_Suc)
  from Cons.prems have "Suc i + length rest \<le> length other" by simp
  then have "range_loop other (Suc i) rest = Inr (take (length rest) (drop (Suc i) other) = rest)"
    by (rule Cons.IH)
  with i d show ?case by auto
qed

lemma range_loop_same_length:
  "length ss = length xx \<Longrightarrow> range_loop xx 0 ss = Inr (ss = xx)"
  by (auto simp add: range_loop_eq)

lemma strSliceEqual_eq: "strSliceEqual ss xx = Inr (ss = xx)"
  by (auto simp add: strSliceEqual_def Let_def range_loop_same_length)

text \<open>
  Claim C10. \<open>strSliceEqual(ss, xx)\<close> never panics and is true exactly when the two slices
  have the same length and equal elements at every index. On slices of equal length the
  loop over \<open>ss\<close> and the loop over \<open>xx\<close> give the same result, and the second loop is
  reached for no input: its path condition asks for equal lengths that are not both 0
  while \<open>len(ss)\<close> is 0.
\<close>

theorem strSliceEqual_C10:
  "strSliceEqual ss xx = Inr (length ss = length xx \<and> (\<forall>i<length ss. ss ! i = xx ! i)) \<and>
   (length ss = length xx \<longrightarrow> range_loop xx 0 ss = range_loop ss 0 xx) \<and>
   \<not> second_loop_reached ss xx"
proof -
  have "strSliceEqual ss xx = Inr (length ss = length xx \<and> (\<forall>i<length ss. ss ! i = xx ! i))"
    by (simp add: strSliceEqual_eq list_eq_iff_nth_eq)
  moreover have "length ss = length xx \<longrightarrow> range_loop xx 0 ss = range_loop ss 0 xx"
    by (auto simp add: range_loop_same_length)
  moreover have "\<not> second_loop_reached ss xx"
    by (auto simp add: second_loop_reached_def Let_def)
  ultimately show ?thesis by blast
qed

theorem strSliceEqual_C10_witness:
  "length [''a'', ''b''] = length [''a'', ''c''] \<and>
   strSliceEqual [''a'', ''b''] [''a'', ''c''] = Inr False \<and>
   range_loop [''a'', ''c''] 0 [''a'', ''b''] = range_loop [''a'', ''b''] 0 [''a'', ''c''] \<and>
   strSliceEqual [''a'', ''b''] [''a'', ''b''] = Inr True"
  using strSliceEqual_C10 [of "[''a'', ''b'']" "[''a'', ''c'']"]
     strSliceEqual_C10 [of "[''a'', ''b'']" "[''a'', ''b'']"]
  by (simp add: less_Suc_eq nth_Cons')


section \<open>DeepEqual on values\<close>

lemma sort_Strings_eq_iff: "sort_Strings xs = sort_Strings ys \<longleftrightarrow> mset xs = mset ys"
proof
  assume "sort_Strings xs = sort_Strings ys"
  then have "mset (sort xs) = mset (sort ys)"
    by (simp add: sort_Strings_def)
  then show "mset xs = mset ys"
    by simp
next
  assume "mset xs = mset ys"
  then have "sort xs = sort ys"
    by (intro properties_for_sort) simp_all
  then show "sort_Strings xs = sort_Strings ys"
    by (simp add: sort_Strings_def)
qed

lemma and_also_Inr: "and_also (Inr a) (Inr b) = Inr (a \<and> b)"
  by (simp add: and_also_def)

lemma DeepEqual_eq:
  "DeepEqual r s =
     Inr (mset (Resources r) = mset (Resources s) \<and>
          mset (Verbs r) = mset (Verbs s) \<and>
          mset (ResourcePatterns r) = mset (ResourcePatterns s) \<and>
          mset (Namespaces r) = mset (Namespaces s))"
  by (simp add: DeepEqual_def Let_def DeepCopy_def resourcesToStrings_def verbsToStrings_def
      strSliceEqual_eq and_also_Inr sort_Strings_eq_iff)


text \<open>
  Claim C5. \<open>r.DeepEqual(r)\<close> is true for every rule, and two rules whose four fields are
  permutations of each other (equal as multisets) compare equal.
\<close>

theorem DeepEqual_C5:
  "DeepEqual r r = Inr True \<and>
   (mset (Verbs r) = mset (Verbs s) \<and> mset (Resources r) = mset (Resources s) \<and>
    mset (ResourcePatterns r) = mset (ResourcePatterns s) \<and>
    mset (Namespaces r) = mset (Namespaces s)
    \<longrightarrow> DeepEqual r s = Inr True)"
  by (simp add: DeepEqual_eq)

theorem DeepEqual_C5_witness:
  "DeepEqual
     \<lparr>Verbs = [''read'', ''use''], Resources = [''templates'', ''users''],
      ResourcePatterns = [''^a'', ''b$''], Namespaces = [''default'', ''kvdi'']\<rparr>
     \<lparr>Verbs = [''use'', ''read''], Resources = [''users'', ''templates''],
      ResourcePatterns = [''b$'', ''^a''], Namespaces = [''kvdi'', ''default'']\<rparr> = Inr True"
  using DeepEqual_C5
    [of "\<lparr>Verbs = [''read'', ''use''], Resources = [''templates'', ''users''],
      ResourcePatterns = [''^a'', ''b$''], Namespaces = [''default'', ''kvdi'']\<rparr>"
     "\<lparr>Verbs = [''use'', ''read''], Resources = [''users'', ''templates''],
      ResourcePatterns = [''b$'', ''^a''], Namespaces = [''kvdi'', ''default'']\<rparr>"]
  by (simp add: add.commute)

section \<open>MatchesResourceName\<close>

lemma MatchesResourceName_loop_append:
  "MatchesResourceName_loop C M (ps @ qs) name \<longleftrightarrow>
     MatchesResourceName_loop C M ps name \<or> MatchesResourceName_loop C M qs name"
  by (induction ps) (auto split: option.splits)

lemma MatchesResourceName_loop_iff:
  "MatchesResourceName_loop C M ps name \<longleftrightarrow>
     (\<exists>p \<in> set ps. \<exists>re. C p = Some re \<and> M re name)"
  by (induction ps) (auto split: option.splits)

text \<open>
  Claim C1. A pattern that does not compile is skipped: the call returns a boolean (the
  model has no error result) and the answer is the one for the pattern list without it,
  wherever in the list it stands. In particular, for a package that rejects
  \<open>"(unclosed"\<close> and compiles \<open>"^ok$"\<close> to an expression matching \<open>"ok"\<close> and not
  \<open>"anything-else"\<close>, as Go's does, a rule with the patterns \<open>["(unclosed", "^ok$"]\<close>
  matches \<open>"ok"\<close> and does not match \<open>"anything-else"\<close>.
\<close>

theorem MatchesResourceName_skips_C1:
  "(Compile bad = None \<longrightarrow>
      MatchesResourceName Compile MatchString (r\<lparr>ResourcePatterns := ps @ bad # qs\<rparr>) name =
      MatchesResourceName Compile MatchString (r\<lparr>ResourcePatterns := ps @ qs\<rparr>) name) \<and>
   (Compile ''(unclosed'' = None \<and> Compile ''^ok$'' = Some re \<and>
    MatchString re ''ok'' \<and> \<not> MatchString re ''anything-else'' \<longrightarrow>
      MatchesResourceName Compile MatchString
        (r\<lparr>ResourcePatterns := [''(unclosed'', ''^ok$'']\<rparr>) ''ok'' \<and>
      \<not> MatchesResourceName Compile MatchString
        (r\<lparr>ResourcePatterns := [''(unclosed'', ''^ok$'']\<rparr>) ''anything-else'')"
  by (simp add: MatchesResourceName_def MatchesResourceName_loop_append)

lemma lit_unclosed: "lit_Compile ''(unclosed'' = None"
  by (simp add: lit_Compile_def meta_characters_def)

lemma lit_ok: "lit_Compile ''^ok$'' = Some (True, ''ok'', True)"
  by (simp add: lit_Compile_def meta_characters_def)

lemma lit_ok_matches: "lit_MatchString (True, ''ok'', True) ''ok''"
  by (simp add: lit_MatchString_def)

lemma lit_ok_other: "\<not> lit_MatchString (True, ''ok'', True) ''anything-else''"
  by (simp add: lit_MatchString_def)

theorem MatchesResourceName_skips_C1_witness:
  "lit_Compile ''(unclosed'' = None \<and> lit_Compile ''^ok$'' = Some (True, ''ok'', True) \<and>
   MatchesResourceName lit_Compile lit_MatchString
     \<lparr>Verbs = [], Resources = [], ResourcePatterns = [''(unclosed'', ''^ok$''],
      Namespaces = []\<rparr> ''ok'' \<and>
   \<not> MatchesResourceName lit_Compile lit_MatchString
     \<lparr>Verbs = [], Resources = [], ResourcePatterns = [''(unclosed'', ''^ok$''],
      Namespaces = []\<rparr> ''anything-else'' \<and>
   MatchesResourceName lit_Compile lit_MatchString
     \<lparr>Verbs = [], Resources = [], ResourcePatterns = [''^ok$''], Namespaces = []\<rparr> ''ok''"
  using MatchesResourceName_skips_C1
    [where Compile = lit_Compile and MatchString = lit_MatchString
       and bad = "''(unclosed''" and ps = "[]" and qs = "[''^ok$'']" and name = "''ok''"
       and re = "(True, ''ok'', True)"
       and r = "\<lparr>Verbs = [], Resources = [], ResourcePatterns = [], Namespaces = []\<rparr>"]
  by (auto simp add: lit_unclosed lit_ok lit_ok_matches lit_ok_other)


section \<open>DeepEqual on the store: what it leaves untouched\<close>

lemma make_copy_frame:
  assumes "make_copy st xs = (st', s')" and "n \<le> length st"
  shows "n \<le> length st' \<and> take n st' = take n st \<and> fresh n s'"
  using assms by (auto simp add: make_copy_def fresh_def)

lemma copy_field_frame:
  assumes "copy_field st s = (st', s')" and "n \<le> length st"
  shows "n \<le> length st' \<and> take n st' = take n st \<and> fresh n s'"
proof (cases s)
  case None
  with assms show ?thesis
    by (auto simp add: copy_field_def fresh_def)
next
  case (Some sl)
  with assms(1) have "make_copy st (elems st s) = (st', s')"
    by (simp add: copy_field_def)
  then show ?thesis
    using assms(2) by (rule make_copy_frame)
qed

lemma sort_Strings_h_frame:
  assumes "fresh n s"
  shows "take n (sort_Strings_h st s) = take n st"
    and "length (sort_Strings_h st s) = length st"
  using assms by (auto simp add: sort_Strings_h_def fresh_def Let_def split: option.splits)

lemma DeepCopy_h_frame:
  assumes "DeepCopy_h st r = (st', r')" and n: "n \<le> length st"
  shows "n \<le> length st' \<and> take n st' = take n st \<and>
         fresh n (Verbs_h r') \<and> fresh n (Resources_h r') \<and>
         fresh n (ResourcePatterns_h r') \<and> fresh n (Namespaces_h r')"
proof -
  obtain st1 v where c1: "copy_field st (Verbs_h r) = (st1, v)"
    by (cases "copy_field st (Verbs_h r)")
  obtain st2 rs where c2: "copy_field st1 (Resources_h r) = (st2, rs)"
    by (cases "copy_field st1 (Resources_h r)")
  obtain st3 ps where c3: "copy_field st2 (ResourcePatterns_h r) = (st3, ps)"
    by (cases "copy_field st2 (ResourcePatterns_h r)")
  obtain st4 ns where c4: "copy_field st3 (Namespaces_h r) = (st4, ns)"
    by (cases "copy_field st3 (Namespaces_h r)")
  from assms(1) c1 c2 c3 c4 have res: "st' = st4"
    "r' = \<lparr>Verbs_h = v, Resources_h = rs, ResourcePatterns_h = ps, Namespaces_h = ns\<rparr>"
    by (simp_all add: DeepCopy_h_def)
  note f1 = copy_field_frame [OF c1 n]
  from f1 have n1: "n \<le> length st1" by simp
  note f2 = copy_field_frame [OF c2 n1]
  from f2 have n2: "n \<le> length st2" by simp
  note f3 = copy_field_frame [OF c3 n2]
  from f3 have n3: "n \<le> length st3" by simp
  note f4 = copy_field_frame [OF c4 n3]
  from f1 f2 f3 f4 show ?thesis
    by (simp add: res)
qed

lemma DeepEqual_h_frame: "take (length st) (snd (DeepEqual_h st r rule)) = st"
proof -
  define n where "n = length st"
  have n0: "n \<le> length st" by (simp add: n_def)
  obtain st1 this where d1: "DeepCopy_h st r = (st1, this)"
    by (cases "DeepCopy_h st r")
  note f1 = DeepCopy_h_frame [OF d1 n0]
  from f1 have n1: "n \<le> length st1" by simp
  obtain st2 that where d2: "DeepCopy_h st1 rule = (st2, that)"
    by (cases "DeepCopy_h st1 rule")
  note f2 = DeepCopy_h_frame [OF d2 n1]
  from f2 have n2: "n \<le> length st2" by simp
  obtain st3 thisRS where d3: "make_copy st2 (resourcesToStrings (elems st2 (Resources_h this))) = (st3, thisRS)"
    by (cases "make_copy st2 (resourcesToStrings (elems st2 (Resources_h this)))")
  note f3 = make_copy_frame [OF d3 n2]
  from f3 have n3: "n \<le> length st3" by simp
  obtain st4 thisVS where d4: "make_copy st3 (verbsToStrings (elems st3 (Verbs_h this))) = (st4, thisVS)"
    by (cases "make_copy st3 (verbsToStrings (elems st3 (Verbs_h this)))")
  note f4 = make_copy_frame [OF d4 n3]
  from f4 have n4: "n \<le> length st4" by simp
  obtain st5 thatRS where d5: "make_copy st4 (resourcesToStrings (elems st4 (Resources_h that))) = (st5, thatRS)"
    by (cases "make_copy st4 (resourcesToStrings (elems st4 (Resources_h that)))")
  note f5 = make_copy_frame [OF d5 n4]
  from f5 have n5: "n \<le> length st5" by simp
  obtain st6 thatVS where d6: "make_copy st5 (verbsToStrings (elems st5 (Verbs_h that))) = (st6, thatVS)"
    by (cases "make_copy st5 (verbsToStrings (elems st5 (Verbs_h that)))")
  note f6 = make_copy_frame [OF d6 n5]
  define final where "final =
    sort_Strings_h (sort_Strings_h (sort_Strings_h (sort_Strings_h
      (sort_Strings_h (sort_Strings_h (sort_Strings_h (sort_Strings_h st6 thisRS) thisVS)
        thatRS) thatVS) (ResourcePatterns_h this)) (Namespaces_h this))
        (ResourcePatterns_h that)) (Namespaces_h that)"
  have "snd (DeepEqual_h st r rule) = final"
    by (simp add: DeepEqual_h_def d1 d2 d3 d4 d5 d6 resourcesToStrings_h_def
        verbsToStrings_h_def final_def Let_def)
  moreover have "take n final = take n st6"
    using f1 f2 f3 f4 f5 f6 by (simp add: final_def sort_Strings_h_frame)
  moreover have "take n st6 = take n st"
    using f1 f2 f3 f4 f5 f6 by simp
  ultimately show ?thesis
    by (simp add: n_def)
qed

lemma elems_frame:
  assumes "valid_slice st s" and "take (length st) st' = st"
  shows "elems st' s = elems st s"
proof (cases s)
  case None
  then show ?thesis by (simp add: elems_def)
next
  case (Some sl)
  with assms(1) have b: "base sl < length st"
    by (simp add: valid_slice_def)
  then have "take (length st) st' ! base sl = st' ! base sl"
    by simp
  with assms(2) have "st' ! base sl = st ! base sl"
    by simp
  with Some show ?thesis
    by (simp add: elems_def)
qed

text \<open>
  Claim C9. \<open>DeepEqual\<close> writes to no array that existed before the call: the store
  after \<open>r.DeepEqual(rule)\<close> agrees with the store before on every old address, the
  sorts going to the arrays that \<open>DeepCopy\<close>, \<open>resourcesToStrings\<close> and \<open>verbsToStrings\<close>
  allocated. So all four fields of \<open>r\<close> and of \<open>rule\<close> read the same after the call as
  before, even where their slices share arrays.
\<close>

theorem DeepEqual_frame_C9:
  "take (length st) (snd (DeepEqual_h st r rule)) = st \<and>
   (valid_Rule st r \<longrightarrow> Rule_of (snd (DeepEqual_h st r rule)) r = Rule_of st r) \<and>
   (valid_Rule st rule \<longrightarrow> Rule_of (snd (DeepEqual_h st r rule)) rule = Rule_of st rule)"
  using DeepEqual_h_frame [of st r rule]
  by (simp add: valid_Rule_def Rule_of_def elems_frame)

theorem DeepEqual_frame_C9_witness:
  "valid_Rule example_store example_rule \<and> valid_Rule example_store example_other \<and>
   take (length example_store) (snd (DeepEqual_h example_store example_rule example_other))
     = example_store \<and>
   Rule_of (snd (DeepEqual_h example_store example_rule example_other)) example_rule =
     \<lparr>Verbs = [''use'', ''read''], Resources = [''users''],
      ResourcePatterns = [''read'', ''*''], Namespaces = []\<rparr> \<and>
   Rule_of (snd (DeepEqual_h example_store example_rule example_other)) example_other =
     \<lparr>Verbs = [''use'', ''read''], Resources = [''users''],
      ResourcePatterns = [''read'', ''*''], Namespaces = []\<rparr>"
  using DeepEqual_frame_C9 [of example_store example_rule example_other]
  by (simp add: valid_Rule_def valid_slice_def Rule_of_def elems_def
      example_store_def example_rule_def example_other_def)

section \<open>DeepEqual on the store computes DeepEqual on values\<close>

lemma within_apart:
  "within a b s \<Longrightarrow> within c d t \<Longrightarrow> b \<le> c \<Longrightarrow> apart s t \<and> apart t s"
  by (auto simp add: within_def apart_def split: option.splits)

lemma apart_by_within:
  "within a b s \<Longrightarrow> within c d t \<Longrightarrow> b \<le> c \<or> d \<le> a \<Longrightarrow> apart s t"
  by (auto simp add: within_def apart_def split: option.splits)

lemma within_mono: "within a b s \<Longrightarrow> a' \<le> a \<Longrightarrow> b \<le> b' \<Longrightarrow> within a' b' s"
  by (auto simp add: within_def split: option.splits)

lemma make_copy_content:
  assumes "make_copy st xs = (st', s')"
  shows "elems st' s' = xs" and "valid_slice st' s'"
    and "within (length st) (length st') s'" and "length st \<le> length st'"
  using assms by (auto simp add: make_copy_def elems_def valid_slice_def within_def)

lemma make_copy_keeps:
  assumes "make_copy st xs = (st', s')" and "valid_slice st t"
  shows "valid_slice st' t \<and> elems st' t = elems st t"
  using assms
  by (auto simp add: make_copy_def elems_def valid_slice_def nth_append split: option.splits)

lemma copy_field_content:
  assumes "copy_field st s = (st', s')"
  shows "elems st' s' = elems st s" and "valid_slice st' s'"
    and "within (length st) (length st') s'" and "length st \<le> length st'"
proof -
  show "elems st' s' = elems st s"
    using assms make_copy_content(1) [of st "elems st s" st' s']
    by (auto simp add: copy_field_def split: option.splits)
  show "valid_slice st' s'"
    using assms make_copy_content(2) [of st "elems st s" st' s']
    by (auto simp add: copy_field_def valid_slice_def split: option.splits)
  show "within (length st) (length st') s'"
    using assms make_copy_content(3) [of st "elems st s" st' s']
    by (auto simp add: copy_field_def within_def split: option.splits)
  show "length st \<le> length st'"
    using assms make_copy_content(4) [of st "elems st s" st' s']
    by (auto simp add: copy_field_def split: option.splits)
qed

lemma copy_field_keeps:
  assumes "copy_field st s = (st', s')" and "valid_slice st t"
  shows "valid_slice st' t \<and> elems st' t = elems st t"
  using assms make_copy_keeps [of st "elems st s" st' s' t]
  by (auto simp add: copy_field_def split: option.splits)

lemma sort_Strings_h_own:
  assumes "valid_slice st s"
  shows "elems (sort_Strings_h st s) s = sort_Strings (elems st s)"
    and "valid_slice (sort_Strings_h st s) s"
proof -
  show "elems (sort_Strings_h st s) s = sort_Strings (elems st s)"
  proof (cases s)
    case None
    then show ?thesis
      by (simp add: sort_Strings_h_def elems_def sort_Strings_def)
  next
    case (Some sl)
    with assms have b: "base sl < length st"
      and l: "offset sl + count sl \<le> length (st ! base sl)"
      by (simp_all add: valid_slice_def)
    define a where "a = st ! base sl"
    define mid where "mid = sort_Strings (take (count sl) (drop (offset sl) a))"
    have lm: "length mid = count sl"
      using l by (simp add: mid_def sort_Strings_def a_def)
    have "take (count sl) (drop (offset sl)
            (take (offset sl) a @ mid @ drop (offset sl + count sl) a)) = mid"
      using l lm by (simp add: a_def)
    with Some b show ?thesis
      by (simp add: sort_Strings_h_def elems_def Let_def a_def mid_def)
  qed
  show "valid_slice (sort_Strings_h st s) s"
  proof (cases s)
    case None
    then show ?thesis
      by (simp add: valid_slice_def)
  next
    case (Some sl)
    with assms have b: "base sl < length st"
      and l: "offset sl + count sl \<le> length (st ! base sl)"
      by (simp_all add: valid_slice_def)
    with Some show ?thesis
      by (simp add: sort_Strings_h_def valid_slice_def elems_def Let_def sort_Strings_def)
  qed
qed

lemma sort_Strings_h_other:
  assumes "apart s t" and "valid_slice st t"
  shows "elems (sort_Strings_h st s) t = elems st t \<and> valid_slice (sort_Strings_h st s) t"
  using assms
  by (auto simp add: sort_Strings_h_def apart_def valid_slice_def elems_def Let_def
      split: option.splits)


lemma apart_sym: "apart s t = apart t s"
  by (auto simp add: apart_def split: option.splits)

lemma make_copy_holds:
  assumes "make_copy st xs = (st', s')"
  shows "holds st' s' xs" and "holds st t ys \<Longrightarrow> holds st' t ys"
  using make_copy_content(1,2) [OF assms] make_copy_keeps [OF assms]
  by (simp_all add: holds_def)

lemma copy_field_holds:
  assumes "copy_field st s = (st', s')"
  shows "holds st' s' (elems st s)" and "holds st t ys \<Longrightarrow> holds st' t ys"
  using copy_field_content(1,2) [OF assms] copy_field_keeps [OF assms]
  by (simp_all add: holds_def)

lemma sort_Strings_h_holds:
  "holds st s xs \<Longrightarrow> holds (sort_Strings_h st s) s (sort_Strings xs)"
  "apart s t \<Longrightarrow> holds st t ys \<Longrightarrow> holds (sort_Strings_h st s) t ys"
  using sort_Strings_h_own [of st s] sort_Strings_h_other [of s t st]
  by (auto simp add: holds_def)

lemma sorts_unaffected:
  "list_all (\<lambda>x. apart x t) xs \<Longrightarrow> holds st t ys \<Longrightarrow> holds (foldl sort_Strings_h st xs) t ys"
  by (induction xs arbitrary: st) (simp_all add: sort_Strings_h_holds)

lemma sorts_each:
  "pairwise_apart xs \<Longrightarrow> list_all (valid_slice st) xs \<Longrightarrow> s \<in> set xs \<Longrightarrow>
   holds (foldl sort_Strings_h st xs) s (sort_Strings (elems st s))"
proof (induction xs arbitrary: st)
  case Nil
  then show ?case by simp
next
  case (Cons x xs)
  let ?st = "sort_Strings_h st x"
  from Cons.prems have ap: "list_all (apart x) xs" and pw: "pairwise_apart xs"
    and vx: "valid_slice st x" and vs: "list_all (valid_slice st) xs"
    by simp_all
  have keep: "y \<in> set xs \<Longrightarrow> holds ?st y (elems st y)" for y
    using ap vs sort_Strings_h_holds(2) [of x y st "elems st y"]
    by (simp add: list_all_iff holds_def)
  then have vs': "list_all (valid_slice ?st) xs"
    by (simp add: list_all_iff holds_def)
  show ?case
  proof (cases "s \<in> set xs")
    case True
    from Cons.IH [OF pw vs' True] keep [OF True] show ?thesis
      by (simp add: holds_def)
  next
    case False
    with Cons.prems have sx: "s = x"
      by simp
    from vx have "holds ?st x (sort_Strings (elems st x))"
      by (intro sort_Strings_h_holds(1)) (simp add: holds_def)
    moreover from ap have "list_all (\<lambda>y. apart y x) xs"
      by (simp add: list_all_iff apart_sym)
    ultimately show ?thesis
      using sx by (simp add: sorts_unaffected)
  qed
qed

lemma DeepCopy_h_content:
  assumes d: "DeepCopy_h st r = (st', r')" and v: "valid_Rule st r"
  shows "holds st' (Verbs_h r') (elems st (Verbs_h r))"
    and "holds st' (Resources_h r') (elems st (Resources_h r))"
    and "holds st' (ResourcePatterns_h r') (elems st (ResourcePatterns_h r))"
    and "holds st' (Namespaces_h r') (elems st (Namespaces_h r))"
    and "within (length st) (length st') (ResourcePatterns_h r')"
    and "within (length st) (length st') (Namespaces_h r')"
    and "apart (ResourcePatterns_h r') (Namespaces_h r')"
    and "length st \<le> length st'"
    and "\<And>t ys. holds st t ys \<Longrightarrow> holds st' t ys"
proof -
  obtain st1 vs where c1: "copy_field st (Verbs_h r) = (st1, vs)"
    by (cases "copy_field st (Verbs_h r)")
  obtain st2 rs where c2: "copy_field st1 (Resources_h r) = (st2, rs)"
    by (cases "copy_field st1 (Resources_h r)")
  obtain st3 ps where c3: "copy_field st2 (ResourcePatterns_h r) = (st3, ps)"
    by (cases "copy_field st2 (ResourcePatterns_h r)")
  obtain st4 ns where c4: "copy_field st3 (Namespaces_h r) = (st4, ns)"
    by (cases "copy_field st3 (Namespaces_h r)")
  from d c1 c2 c3 c4 have res: "st' = st4"
    "r' = \<lparr>Verbs_h = vs, Resources_h = rs, ResourcePatterns_h = ps, Namespaces_h = ns\<rparr>"
    by (simp_all add: DeepCopy_h_def)
  note k1 = copy_field_holds(2) [OF c1] and k2 = copy_field_holds(2) [OF c2]
    and k3 = copy_field_holds(2) [OF c3] and k4 = copy_field_holds(2) [OF c4]
  have keep: "holds st t ys \<Longrightarrow> holds st4 t ys" for t ys
    by (intro k4 k3 k2 k1)
  from v have o: "holds st (Resources_h r) (elems st (Resources_h r))"
    "holds st (ResourcePatterns_h r) (elems st (ResourcePatterns_h r))"
    "holds st (Namespaces_h r) (elems st (Namespaces_h r))"
    by (simp_all add: valid_Rule_def holds_def)
  have e2: "elems st1 (Resources_h r) = elems st (Resources_h r)"
    using k1 [OF o(1)] by (simp add: holds_def)
  have e3: "elems st2 (ResourcePatterns_h r) = elems st (ResourcePatterns_h r)"
    using k2 [OF k1 [OF o(2)]] by (simp add: holds_def)
  have e4: "elems st3 (Namespaces_h r) = elems st (Namespaces_h r)"
    using k3 [OF k2 [OF k1 [OF o(3)]]] by (simp add: holds_def)
  have "holds st4 vs (elems st (Verbs_h r))"
    by (intro k4 k3 k2 copy_field_holds(1) [OF c1])
  moreover have "holds st4 rs (elems st (Resources_h r))"
    using copy_field_holds(1) [OF c2] by (simp add: e2 k3 k4)
  moreover have "holds st4 ps (elems st (ResourcePatterns_h r))"
    using copy_field_holds(1) [OF c3] by (simp add: e3 k4)
  moreover have "holds st4 ns (elems st (Namespaces_h r))"
    using copy_field_holds(1) [OF c4] by (simp add: e4)
  moreover note l1 = copy_field_content(4) [OF c1] and l2 = copy_field_content(4) [OF c2]
    and l3 = copy_field_content(4) [OF c3] and l4 = copy_field_content(4) [OF c4]
  note w3 = copy_field_content(3) [OF c3] and w4 = copy_field_content(3) [OF c4]
  have "within (length st) (length st4) ps"
    using w3 l1 l2 l4 by (auto intro: within_mono)
  moreover have "within (length st) (length st4) ns"
    using w4 l1 l2 l3 by (auto intro: within_mono)
  moreover have "apart ps ns"
    using within_apart [OF w3 w4] by simp
  moreover have "length st \<le> length st4"
    using l1 l2 l3 l4 by simp
  ultimately show
    "holds st' (Verbs_h r') (elems st (Verbs_h r))"
    "holds st' (Resources_h r') (elems st (Resources_h r))"
    "holds st' (ResourcePatterns_h r') (elems st (ResourcePatterns_h r))"
    "holds st' (Namespaces_h r') (elems st (Namespaces_h r))"
    "within (length st) (length st') (ResourcePatterns_h r')"
    "within (length st) (length st') (Namespaces_h r')"
    "apart (ResourcePatterns_h r') (Namespaces_h r')"
    "length st \<le> length st'"
    by (simp_all add: res)
  show "\<And>t ys. holds st t ys \<Longrightarrow> holds st' t ys"
    using keep by (simp add: res)
qed


lemma valid_Rule_holds:
  "valid_Rule st r \<longleftrightarrow>
     holds st (Verbs_h r) (elems st (Verbs_h r)) \<and>
     holds st (Resources_h r) (elems st (Resources_h r)) \<and>
     holds st (ResourcePatterns_h r) (elems st (ResourcePatterns_h r)) \<and>
     holds st (Namespaces_h r) (elems st (Namespaces_h r))"
  by (simp add: valid_Rule_def holds_def)

text \<open>
  The result of \<open>DeepEqual\<close> on the store is \<open>DeepEqual\<close> on the values of the two rules:
  the copies hold the callers' elements, the eight sorted slices lie on pairwise
  different new arrays, and each is compared after its own sort only.
\<close>

lemma DeepEqual_h_refines:
  assumes vr: "valid_Rule st r" and vrule: "valid_Rule st rule"
  shows "fst (DeepEqual_h st r rule) = DeepEqual (Rule_of st r) (Rule_of st rule)"
proof -
  obtain st1 this where d1: "DeepCopy_h st r = (st1, this)"
    by (cases "DeepCopy_h st r")
  obtain st2 that where d2: "DeepCopy_h st1 rule = (st2, that)"
    by (cases "DeepCopy_h st1 rule")
  obtain st3 thisRS
    where d3: "make_copy st2 (resourcesToStrings (elems st2 (Resources_h this))) = (st3, thisRS)"
    by (cases "make_copy st2 (resourcesToStrings (elems st2 (Resources_h this)))")
  obtain st4 thisVS
    where d4: "make_copy st3 (verbsToStrings (elems st3 (Verbs_h this))) = (st4, thisVS)"
    by (cases "make_copy st3 (verbsToStrings (elems st3 (Verbs_h this)))")
  obtain st5 thatRS
    where d5: "make_copy st4 (resourcesToStrings (elems st4 (Resources_h that))) = (st5, thatRS)"
    by (cases "make_copy st4 (resourcesToStrings (elems st4 (Resources_h that)))")
  obtain st6 thatVS
    where d6: "make_copy st5 (verbsToStrings (elems st5 (Verbs_h that))) = (st6, thatVS)"
    by (cases "make_copy st5 (verbsToStrings (elems st5 (Verbs_h that)))")
  define sorted where "sorted =
    [thisRS, thisVS, thatRS, thatVS, ResourcePatterns_h this, Namespaces_h this,
     ResourcePatterns_h that, Namespaces_h that]"
  define final where "final = foldl sort_Strings_h st6 sorted"
  have result: "DeepEqual_h st r rule =
    (and_also (strSliceEqual (elems final thisRS) (elems final thatRS))
       (and_also (strSliceEqual (elems final thisVS) (elems final thatVS))
         (and_also (strSliceEqual (elems final (ResourcePatterns_h this))
                                  (elems final (ResourcePatterns_h that)))
           (strSliceEqual (elems final (Namespaces_h this)) (elems final (Namespaces_h that))))),
     final)"
    by (simp add: DeepEqual_h_def d1 d2 d3 d4 d5 d6 resourcesToStrings_h_def
        verbsToStrings_h_def final_def sorted_def Let_def)
  note a = DeepCopy_h_content [OF d1 vr]
  have vrule1: "valid_Rule st1 rule"
    and same1: "Rule_of st1 rule = Rule_of st rule"
    using vrule a(9) by (auto simp add: valid_Rule_holds Rule_of_def holds_def)
  note b = DeepCopy_h_content [OF d2 vrule1]
  note k3 = make_copy_holds(2) [OF d3] and k4 = make_copy_holds(2) [OF d4]
    and k5 = make_copy_holds(2) [OF d5] and k6 = make_copy_holds(2) [OF d6]
  note l3 = make_copy_content(4) [OF d3] and l4 = make_copy_content(4) [OF d4]
    and l5 = make_copy_content(4) [OF d5] and l6 = make_copy_content(4) [OF d6]
  note w3 = make_copy_content(3) [OF d3] and w4 = make_copy_content(3) [OF d4]
    and w5 = make_copy_content(3) [OF d5] and w6 = make_copy_content(3) [OF d6]

  have this2: "holds st2 (Verbs_h this) (elems st (Verbs_h r))"
    "holds st2 (Resources_h this) (elems st (Resources_h r))"
    "holds st2 (ResourcePatterns_h this) (elems st (ResourcePatterns_h r))"
    "holds st2 (Namespaces_h this) (elems st (Namespaces_h r))"
    by (intro b(9) a(1) a(2) a(3) a(4))+
  have that2: "holds st2 (Verbs_h that) (elems st (Verbs_h rule))"
    "holds st2 (Resources_h that) (elems st (Resources_h rule))"
    "holds st2 (ResourcePatterns_h that) (elems st (ResourcePatterns_h rule))"
    "holds st2 (Namespaces_h that) (elems st (Namespaces_h rule))"
    using b(1-4) same1 by (simp_all add: Rule_of_def)

  have h1: "holds st6 thisRS (elems st (Resources_h r))"
    using make_copy_holds(1) [OF d3] this2(2)
    by (intro k6 k5 k4) (simp add: holds_def resourcesToStrings_def)
  have "holds st3 (Verbs_h this) (elems st (Verbs_h r))"
    by (intro k3 this2)
  then have h2: "holds st6 thisVS (elems st (Verbs_h r))"
    using make_copy_holds(1) [OF d4]
    by (intro k6 k5) (simp add: holds_def verbsToStrings_def)
  have "holds st4 (Resources_h that) (elems st (Resources_h rule))"
    by (intro k4 k3 that2)
  then have h3: "holds st6 thatRS (elems st (Resources_h rule))"
    using make_copy_holds(1) [OF d5]
    by (intro k6) (simp add: holds_def resourcesToStrings_def)
  have "holds st5 (Verbs_h that) (elems st (Verbs_h rule))"
    by (intro k5 k4 k3 that2)
  then have h4: "holds st6 thatVS (elems st (Verbs_h rule))"
    using make_copy_holds(1) [OF d6]
    by (simp add: holds_def verbsToStrings_def)
  have h5: "holds st6 (ResourcePatterns_h this) (elems st (ResourcePatterns_h r))"
    and h6: "holds st6 (Namespaces_h this) (elems st (Namespaces_h r))"
    and h7: "holds st6 (ResourcePatterns_h that) (elems st (ResourcePatterns_h rule))"
    and h8: "holds st6 (Namespaces_h that) (elems st (Namespaces_h rule))"
    by (intro k6 k5 k4 k3 this2 that2)+

  have valid: "list_all (valid_slice st6) sorted"
    using h1 h2 h3 h4 h5 h6 h7 h8 by (simp add: sorted_def holds_def)
  have pw: "pairwise_apart sorted"
  proof -
    note ws = a(5,6) b(5,6) w3 w4 w5 w6
    note ls = a(8) b(8) l3 l4 l5 l6
    show ?thesis
      by (simp add: sorted_def, intro conjI;
          (rule a(7) b(7) | (rule apart_by_within, rule ws, rule ws, insert ls, simp)))
  qed
  have sorted_elems: "s \<in> set sorted \<Longrightarrow> elems final s = sort_Strings (elems st6 s)" for s
    using sorts_each [OF pw valid] by (simp add: final_def holds_def)
  have e: "elems final thisRS = sort_Strings (elems st (Resources_h r))"
    "elems final thisVS = sort_Strings (elems st (Verbs_h r))"
    "elems final thatRS = sort_Strings (elems st (Resources_h rule))"
    "elems final thatVS = sort_Strings (elems st (Verbs_h rule))"
    "elems final (ResourcePatterns_h this) = sort_Strings (elems st (ResourcePatterns_h r))"
    "elems final (Namespaces_h this) = sort_Strings (elems st (Namespaces_h r))"
    "elems final (ResourcePatterns_h that) = sort_Strings (elems st (ResourcePatterns_h rule))"
    "elems final (Namespaces_h that) = sort_Strings (elems st (Namespaces_h rule))"
    using h1 h2 h3 h4 h5 h6 h7 h8 by (simp_all add: sorted_elems sorted_def holds_def)
  show ?thesis
    by (simp add: result e DeepEqual_def DeepCopy_def Rule_of_def Let_def
        resourcesToStrings_def verbsToStrings_def)
qed

end
